theory Spec2Isabelle
  imports Main
begin

section \<open>Vacancy documents and the vacancy collection\<close>

text \<open>
  The two route files work on one MongoDB collection of Vacancy documents; every vacancy
  embeds its applications as an ordered array. An ObjectId is an opaque key, modelled as a
  natural number. Both status fields are JavaScript strings in the routes and stay strings
  here. The descriptive fields (title, subject, description, requirements, salary) and the
  \<open>featured\<close> flag are never read or written by the routes below and are left out.
  The Mongoose schema of the collection is not among the sources: documents are stored as
  the routes write them, and an update without \<open>runValidators\<close> is not validated in any
  case. Request parameters are well-formed ids and strings and the database answers every
  call, so the 500 replies of the catch blocks for a failing database do not occur.
\<close>

type_synonym oid = nat

record application =
  application_id :: oid
  teacher :: oid
  application_status :: string
  appliedAt :: "nat option"

record vacancy =
  vacancy_id :: oid
  status :: string
  applications :: "application list"

type_synonym collection = "vacancy list"

text \<open>
  The JSON error replies of the routes. \<open>http_code\<close> and \<open>message\<close> give the status code
  and the message text each handler sends.
\<close>

datatype reply_error =
    NotFoundOrNotOpen
  | DuplicateApplication
  | CapacityExceeded
  | ApplicationNotFound
  | VacancyOrApplicationNotFound
  | ServerError

fun http_code :: "reply_error \<Rightarrow> nat" where
  "http_code NotFoundOrNotOpen = 404"
| "http_code DuplicateApplication = 400"
| "http_code CapacityExceeded = 400"
| "http_code ApplicationNotFound = 404"
| "http_code VacancyOrApplicationNotFound = 404"
| "http_code ServerError = 500"

fun message :: "reply_error \<Rightarrow> string" where
  "message NotFoundOrNotOpen = ''Vacancy not found or not open''"
| "message DuplicateApplication = ''You have already applied for this vacancy''"
| "message CapacityExceeded = ''This vacancy has reached maximum applications''"
| "message ApplicationNotFound = ''Application not found''"
| "message VacancyOrApplicationNotFound = ''Vacancy or application not found''"
| "message ServerError = ''Error submitting application''"

subsection \<open>Store primitives\<close>

text \<open>
  An update of one document (\<open>updateOne\<close>, \<open>findOneAndUpdate\<close>, \<open>save\<close>) and the positional
  operator \<open>$\<close> on an array both change the first element that matches and nothing else.
\<close>

fun update_first :: "('a \<Rightarrow> bool) \<Rightarrow> ('a \<Rightarrow> 'a) \<Rightarrow> 'a list \<Rightarrow> 'a list" where
  "update_first P f [] = []"
| "update_first P f (x # xs) = (if P x then f x # xs else x # update_first P f xs)"

definition findById :: "collection \<Rightarrow> oid \<Rightarrow> vacancy option" where
  "findById db i = find (\<lambda>v. vacancy_id v = i) db"

text \<open>\<open>Vacancy.findOne({ _id: vacancyId, status: 'open' })\<close>\<close>

definition findOne_open :: "collection \<Rightarrow> oid \<Rightarrow> vacancy option" where
  "findOne_open db i = find (\<lambda>v. vacancy_id v = i \<and> status v = ''open'') db"

text \<open>\<open>doc.save()\<close> writes the document back under its \<open>_id\<close>.\<close>

definition save :: "vacancy \<Rightarrow> collection \<Rightarrow> collection" where
  "save doc db = update_first (\<lambda>v. vacancy_id v = vacancy_id doc) (\<lambda>_. doc) db"

text \<open>
  \<open>.populate('applications.teacher')\<close> replaces the teacher reference of an application by
  the teacher document, or by null when the Teacher collection has no such document. The
  Teacher collection is given by the ids it holds.
\<close>

definition populate :: "oid list \<Rightarrow> application \<Rightarrow> oid option" where
  "populate teachers app = (if teacher app \<in> set teachers then Some (teacher app) else None)"

text \<open>The query condition \<open>{ 'applications._id': applicationId }\<close>.\<close>

definition has_application :: "oid \<Rightarrow> vacancy \<Rightarrow> bool" where
  "has_application applicationId v =
     list_ex (\<lambda>app. application_id app = applicationId) (applications v)"

text \<open>Reading one application of one vacancy back from the collection.\<close>

definition application_in :: "collection \<Rightarrow> oid \<Rightarrow> oid \<Rightarrow> application option" where
  "application_in db vacancyId applicationId =
     (case findById db vacancyId of
        None \<Rightarrow> None
      | Some v \<Rightarrow> find (\<lambda>app. application_id app = applicationId) (applications v))"

text \<open>
  ObjectIds are unique: no two vacancies share an \<open>_id\<close>, and no two applications of the
  collection share one.
\<close>

definition unique_ids :: "collection \<Rightarrow> bool" where
  "unique_ids db \<longleftrightarrow>
     distinct (map vacancy_id db) \<and>
     distinct (concat (map (\<lambda>v. map application_id (applications v)) db))"

section \<open>routes/teacherApply.js\<close>

subsection \<open>GET /available-vacancies\<close>

text \<open>
  The query has three conditions: \<open>status: 'open'\<close>, fewer than 5 applications (\<open>$expr\<close>
  with \<open>$size\<close>), and \<open>'applications.teacher': { $ne: currentTeacherId }\<close>, which on an
  array of subdocuments holds when no element has that teacher. Every hit is returned with
  an added \<open>applicantCount\<close>.
\<close>

definition teacherApply_available_query :: "oid \<Rightarrow> vacancy \<Rightarrow> bool" where
  "teacherApply_available_query currentTeacherId v \<longleftrightarrow>
     status v = ''open'' \<and>
     length (applications v) < 5 \<and>
     \<not> list_ex (\<lambda>app. teacher app = currentTeacherId) (applications v)"

definition teacherApply_available_vacancies :: "collection \<Rightarrow> oid \<Rightarrow> (vacancy \<times> nat) list" where
  "teacherApply_available_vacancies db currentTeacherId =
     map (\<lambda>v. (v, length (applications v)))
       (filter (teacherApply_available_query currentTeacherId) db)"

subsection \<open>POST /apply-vacancy/:id\<close>

text \<open>
  \<open>newId\<close> is the \<open>_id\<close> Mongoose generates for the pushed subdocument, \<open>now\<close> the value of
  \<open>new Date()\<close>. The duplicate test works on the populated teacher references; the stored
  references are not changed by it. The success reply carries \<open>vacancyStatus\<close> and the
  applications of the vacancy read back with \<open>findById\<close> (populated again for display,
  which is left out); if that read finds nothing the handler throws and the catch block
  answers 500.
\<close>

definition teacherApply_apply_vacancy ::
  "oid list \<Rightarrow> oid \<Rightarrow> nat \<Rightarrow> collection \<Rightarrow> oid \<Rightarrow> oid \<Rightarrow>
     collection \<times> (reply_error + string \<times> application list)" where
  "teacherApply_apply_vacancy teachers newId now db vacancyId teacherId =
     (case findOne_open db vacancyId of
        None \<Rightarrow> (db, Inl NotFoundOrNotOpen)
      | Some existingVacancy \<Rightarrow>
          if list_ex (\<lambda>app. case populate teachers app of
                               None \<Rightarrow> False
                             | Some t \<Rightarrow> t = teacherId)
               (applications existingVacancy)
          then (db, Inl DuplicateApplication)
          else
            let pushed = existingVacancy
                  \<lparr>applications := applications existingVacancy @
                     [\<lparr>application_id = newId, teacher = teacherId,
                       application_status = ''pending'', appliedAt = Some now\<rparr>]\<rparr>;
                full = (if length (applications pushed) = 5
                        then pushed\<lparr>status := ''closed''\<rparr> else pushed);
                db' = save full db
            in (case findById db' vacancyId of
                  None \<Rightarrow> (db', Inl ServerError)
                | Some updatedVacancy \<Rightarrow>
                    (db', Inr (status full, applications updatedVacancy))))"

subsection \<open>PUT /application-status/:applicationId\<close>

text \<open>
  First update: \<open>findOneAndUpdate\<close> on the first vacancy holding an application with the
  given id; \<open>applications.$.status\<close> is set to the request's status, and the vacancy's own
  status to closed when the request's status is accepted. Second update, only for accepted:
  \<open>applications.$[elem].status\<close> is set to rejected for every element matching the array
  filter (another id, status pending). The reply carries the applications as they were
  after the first update.
\<close>

definition set_positional_status :: "oid \<Rightarrow> string \<Rightarrow> vacancy \<Rightarrow> vacancy" where
  "set_positional_status applicationId s v =
     v\<lparr>applications :=
         update_first (\<lambda>app. application_id app = applicationId)
           (\<lambda>app. app\<lparr>application_status := s\<rparr>) (applications v)\<rparr>"

definition reject_other_pending :: "oid \<Rightarrow> vacancy \<Rightarrow> vacancy" where
  "reject_other_pending applicationId v =
     v\<lparr>applications :=
         map (\<lambda>elem. if application_id elem \<noteq> applicationId \<and>
                         application_status elem = ''pending''
                      then elem\<lparr>application_status := ''rejected''\<rparr> else elem)
           (applications v)\<rparr>"

definition teacherApply_first_update :: "oid \<Rightarrow> string \<Rightarrow> vacancy \<Rightarrow> vacancy" where
  "teacherApply_first_update applicationId s v =
     (let v1 = set_positional_status applicationId s v
      in if s = ''accepted'' then v1\<lparr>status := ''closed''\<rparr> else v1)"

definition teacherApply_application_status ::
  "collection \<Rightarrow> oid \<Rightarrow> string \<Rightarrow> collection \<times> (reply_error + application list)" where
  "teacherApply_application_status db applicationId s =
     (case find (has_application applicationId) db of
        None \<Rightarrow> (db, Inl ApplicationNotFound)
      | Some found \<Rightarrow>
          let vacancy = teacherApply_first_update applicationId s found;
              db1 = update_first (has_application applicationId)
                      (teacherApply_first_update applicationId s) db;
              db2 = (if s = ''accepted''
                     then update_first (\<lambda>v. vacancy_id v = vacancy_id vacancy)
                            (reject_other_pending applicationId) db1
                     else db1)
          in (db2, Inr (applications vacancy)))"

text \<open>
  The net change of the two updates of \<open>PUT /application-status/:applicationId\<close> on one
  application: the addressed application takes the request's status; when the request's
  status is accepted, the array filter turns every other pending application to rejected.
\<close>

definition status_result :: "oid \<Rightarrow> string \<Rightarrow> application \<Rightarrow> application" where
  "status_result i s b =
     (if application_id b = i then b\<lparr>application_status := s\<rparr>
      else if s = ''accepted'' \<and> application_status b = ''pending''
      then b\<lparr>application_status := ''rejected''\<rparr> else b)"

section \<open>routes/vacancyRoutes.js\<close>

subsection \<open>PUT /:vacancyId/applications/:applicationId/status\<close>

definition vacancyRoutes_application_status ::
  "collection \<Rightarrow> oid \<Rightarrow> oid \<Rightarrow> string \<Rightarrow> collection \<times> (reply_error + unit)" where
  "vacancyRoutes_application_status db vacancyId applicationId s =
     (let query = (\<lambda>v. vacancy_id v = vacancyId \<and> has_application applicationId v)
      in case find query db of
           None \<Rightarrow> (db, Inl VacancyOrApplicationNotFound)
         | Some found \<Rightarrow>
             (update_first query (set_positional_status applicationId s) db, Inr ()))"

subsection \<open>GET /available-vacancies\<close>

definition vacancyRoutes_available_vacancies :: "collection \<Rightarrow> vacancy list" where
  "vacancyRoutes_available_vacancies db =
     filter (\<lambda>v. status v = ''open'' \<and> length (applications v) < 5) db"

subsection \<open>POST /apply-vacancy/:id\<close>

text \<open>
  The pushed subdocument has no \<open>appliedAt\<close>; the duplicate test reads the stored teacher
  reference, and the capacity test comes after it.
\<close>

definition vacancyRoutes_apply_vacancy ::
  "oid \<Rightarrow> collection \<Rightarrow> oid \<Rightarrow> oid \<Rightarrow> collection \<times> (reply_error + unit)" where
  "vacancyRoutes_apply_vacancy newId db vacancyId teacherId =
     (case findOne_open db vacancyId of
        None \<Rightarrow> (db, Inl NotFoundOrNotOpen)
      | Some vacancy \<Rightarrow>
          if list_ex (\<lambda>app. teacher app = teacherId) (applications vacancy)
          then (db, Inl DuplicateApplication)
          else if length (applications vacancy) \<ge> 5
          then (db, Inl CapacityExceeded)
          else
            (save (vacancy\<lparr>applications := applications vacancy @
                     [\<lparr>application_id = newId, teacher = teacherId,
                       application_status = ''pending'', appliedAt = None\<rparr>]\<rparr>) db,
             Inr ()))"

section \<open>Example data\<close>

definition mk_application :: "oid \<Rightarrow> oid \<Rightarrow> string \<Rightarrow> application" where
  "mk_application i t s =
     \<lparr>application_id = i, teacher = t, application_status = s, appliedAt = None\<rparr>"

definition mk_vacancy :: "oid \<Rightarrow> string \<Rightarrow> application list \<Rightarrow> vacancy" where
  "mk_vacancy i s apps = \<lparr>vacancy_id = i, status = s, applications = apps\<rparr>"

definition pending_four :: "application list" where
  "pending_four =
     [mk_application 101 11 ''pending'', mk_application 102 12 ''pending'',
      mk_application 103 13 ''pending'', mk_application 104 14 ''pending'']"

definition five_pending :: "application list" where
  "five_pending = pending_four @ [mk_application 105 15 ''pending'']"

definition five_one_rejected :: "application list" where
  "five_one_rejected = pending_four @ [mk_application 105 15 ''rejected'']"

definition three_applications :: "application list" where
  "three_applications =
     [mk_application 101 11 ''pending'', mk_application 102 12 ''pending'',
      mk_application 103 13 ''rejected'']"

definition accepted_and_rejected :: "application list" where
  "accepted_and_rejected =
     [mk_application 101 11 ''accepted'', mk_application 102 12 ''rejected'']"

section \<open>Unfolding bundles for concrete evaluation\<close>

lemmas ex_defs =
  pending_four_def five_pending_def five_one_rejected_def three_applications_def
  accepted_and_rejected_def mk_application_def mk_vacancy_def

lemmas status_defs =
  teacherApply_application_status_def vacancyRoutes_application_status_def
  teacherApply_first_update_def set_positional_status_def reject_other_pending_def
  has_application_def Let_def

section \<open>Facts about the store primitives\<close>

lemma set_update_first: "set (update_first P f xs) \<subseteq> set xs \<union> f ` {x \<in> set xs. P x}"
  by (induction xs) auto

lemma length_update_first: "length (update_first P f xs) = length xs"
  by (induction xs) auto

lemma map_update_first: "(\<And>x. g (f x) = g x) \<Longrightarrow> map g (update_first P f xs) = map g xs"
  by (induction xs) auto

text \<open>When at most one element matches, updating the first match is a \<open>map\<close>.\<close>

lemma update_first_unique:
  "length (filter P xs) \<le> 1 \<Longrightarrow> update_first P f xs = map (\<lambda>x. if P x then f x else x) xs"
proof (induction xs)
  case Nil
  then show ?case by simp
next
  case (Cons x xs)
  show ?case
  proof (cases "P x")
    case True
    with Cons.prems have "filter P xs = []" by simp
    then have "\<forall>y\<in>set xs. \<not> P y" by (simp add: filter_empty_conv)
    then have "map (\<lambda>x. if P x then f x else x) xs = xs" by (simp add: map_idI)
    with True show ?thesis by simp
  next
    case False
    with Cons show ?thesis by simp
  qed
qed

lemma filter_key_le1: "distinct (map k xs) \<Longrightarrow> length (filter (\<lambda>x. k x = c) xs) \<le> 1"
proof (induction xs)
  case Nil
  then show ?case by simp
next
  case (Cons x xs)
  show ?case
  proof (cases "k x = c")
    case True
    with Cons.prems have "\<forall>y\<in>set xs. k y \<noteq> c" by (auto simp: image_iff)
    then have "filter (\<lambda>x. k x = c) xs = []" by (simp add: filter_empty_conv)
    with True show ?thesis by simp
  next
    case False
    with Cons show ?thesis by simp
  qed
qed

lemma find_key:
  "distinct (map k xs) \<Longrightarrow> x \<in> set xs \<Longrightarrow>
     find (\<lambda>y. k y = k x \<and> Q y) xs = (if Q x then Some x else None)"
  by (induction xs) (auto simp: find_None_iff image_iff)

lemma find_map_preserve:
  "(\<And>x. P (g x) = P x) \<Longrightarrow> find P (map g xs) = map_option g (find P xs)"
  by (induction xs) auto

lemma find_update_first_const:
  "P d \<Longrightarrow> find P (update_first P (\<lambda>_. d) xs) = (if list_ex P xs then Some d else None)"
  by (induction xs) auto

lemma find_SomeD: "find P xs = Some x \<Longrightarrow> x \<in> set xs \<and> P x"
  by (induction xs) (auto split: if_splits)

lemma find_only:
  "x \<in> set xs \<Longrightarrow> P x \<Longrightarrow> (\<forall>y\<in>set xs. P y \<longrightarrow> y = x) \<Longrightarrow> find P xs = Some x"
proof (induction xs)
  case Nil
  then show ?case by simp
next
  case (Cons y ys)
  show ?case
  proof (cases "P y")
    case True
    with Cons.prems(3) have "y = x" by simp
    with True show ?thesis by simp
  next
    case False
    with Cons.prems(1,2) have "x \<in> set ys" by auto
    moreover from Cons.prems(3) have "\<forall>z\<in>set ys. P z \<longrightarrow> z = x" by simp
    ultimately have "find P ys = Some x" using Cons.IH Cons.prems(2) by blast
    with False show ?thesis by simp
  qed
qed

lemma update_first_only:
  "distinct (map k xs) \<Longrightarrow> x \<in> set xs \<Longrightarrow> P x \<Longrightarrow> (\<forall>y\<in>set xs. P y \<longrightarrow> y = x) \<Longrightarrow>
     update_first P f xs = map (\<lambda>y. if k y = k x then f y else y) xs"
proof (induction xs)
  case Nil
  then show ?case by simp
next
  case (Cons y ys)
  from Cons.prems(1) have dys: "distinct (map k ys)" and fresh: "k y \<notin> k ` set ys"
    by simp_all
  show ?case
  proof (cases "P y")
    case True
    with Cons.prems(4) have yx: "x = y" by simp
    from fresh have "\<forall>z\<in>set ys. k z \<noteq> k y" by (metis imageI)
    then have "map (\<lambda>z. if k z = k y then f z else z) ys = ys" by (simp add: map_idI)
    with True show ?thesis unfolding yx by simp
  next
    case False
    with Cons.prems(2,3) have mem: "x \<in> set ys" by auto
    with fresh have ky: "k y \<noteq> k x" by (metis imageI)
    from Cons.prems(4) have only: "\<forall>z\<in>set ys. P z \<longrightarrow> z = x" by simp
    have "update_first P f ys = map (\<lambda>y. if k y = k x then f y else y) ys"
      using dys mem Cons.prems(3) only by (rule Cons.IH)
    with False ky show ?thesis by simp
  qed
qed

section \<open>Facts about the apply handlers\<close>

lemma findOne_open_member:
  "distinct (map vacancy_id db) \<Longrightarrow> v \<in> set db \<Longrightarrow>
     findOne_open db (vacancy_id v) = (if status v = ''open'' then Some v else None)"
  unfolding findOne_open_def by (rule find_key)

lemma findOne_open_missing:
  "i \<notin> vacancy_id ` set db \<Longrightarrow> findOne_open db i = None"
  by (auto simp: findOne_open_def find_None_iff)

lemma findById_member:
  "distinct (map vacancy_id db) \<Longrightarrow> v \<in> set db \<Longrightarrow> findById db (vacancy_id v) = Some v"
  using find_key [of vacancy_id db v "\<lambda>_. True"] by (simp add: findById_def)

lemma findById_save:
  "findById (save doc db) (vacancy_id doc) =
     (if vacancy_id doc \<in> vacancy_id ` set db then Some doc else None)"
proof -
  have "find (\<lambda>v. vacancy_id v = vacancy_id doc)
          (update_first (\<lambda>v. vacancy_id v = vacancy_id doc) (\<lambda>_. doc) db) =
        (if list_ex (\<lambda>v. vacancy_id v = vacancy_id doc) db then Some doc else None)"
    by (rule find_update_first_const) simp
  moreover have "list_ex (\<lambda>v. vacancy_id v = vacancy_id doc) db \<longleftrightarrow>
                   vacancy_id doc \<in> vacancy_id ` set db"
    unfolding list_ex_iff image_iff by metis
  ultimately show ?thesis by (simp add: findById_def save_def)
qed

lemma save_unique:
  "distinct (map vacancy_id db) \<Longrightarrow>
     save doc db = map (\<lambda>w. if vacancy_id w = vacancy_id doc then doc else w) db"
  unfolding save_def by (rule update_first_unique) (rule filter_key_le1)

lemma set_save: "set (save doc db) \<subseteq> insert doc (set db)"
  using set_update_first [of "\<lambda>v. vacancy_id v = vacancy_id doc" "\<lambda>_. doc" db]
  by (auto simp: save_def)

lemma teacherApply_apply_success:
  fixes newId now t :: nat and v :: vacancy
  assumes "distinct (map vacancy_id db)" and "v \<in> set db" and "status v = ''open''"
    and "\<not> list_ex (\<lambda>app. case populate teachers app of None \<Rightarrow> False | Some u \<Rightarrow> u = t)
               (applications v)"
  defines "new \<equiv> \<lparr>application_id = newId, teacher = t,
                   application_status = ''pending'', appliedAt = Some now\<rparr>"
  defines "v' \<equiv> v\<lparr>applications := applications v @ [new],
                   status := (if length (applications v) = 4 then ''closed'' else ''open'')\<rparr>"
  shows "teacherApply_apply_vacancy teachers newId now db (vacancy_id v) t =
           (map (\<lambda>w. if vacancy_id w = vacancy_id v then v' else w) db,
            Inr (status v', applications v'))"
proof -
  have found: "findOne_open db (vacancy_id v) = Some v"
    using assms(1-3) by (simp add: findOne_open_member)
  have full: "(if length (applications (v\<lparr>applications := applications v @ [new]\<rparr>)) = 5
               then v\<lparr>applications := applications v @ [new]\<rparr>\<lparr>status := ''closed''\<rparr>
               else v\<lparr>applications := applications v @ [new]\<rparr>) = v'"
    using assms(3) by (simp add: v'_def)
  have id: "vacancy_id v' = vacancy_id v" by (simp add: v'_def)
  have reread: "findById (save v' db) (vacancy_id v) = Some v'"
    using findById_save [of v' db] assms(2) by (simp add: id)
  have sv: "save v' db = map (\<lambda>w. if vacancy_id w = vacancy_id v then v' else w) db"
    using save_unique [OF assms(1), of v'] by (simp add: id)
  show ?thesis
    unfolding teacherApply_apply_vacancy_def found option.case Let_def new_def [symmetric] full
    using assms(4) reread [unfolded sv] by (simp add: sv)
qed

section \<open>Facts about the status routes\<close>

lemma has_application_only:
  "distinct (concat (map (\<lambda>v. map application_id (applications v)) db)) \<Longrightarrow>
     v \<in> set db \<Longrightarrow> has_application i v \<Longrightarrow> w \<in> set db \<Longrightarrow> has_application i w \<Longrightarrow> w = v"
  by (induction db) (auto simp: has_application_def list_ex_iff)

lemma unique_ids_applications:
  "unique_ids db \<Longrightarrow> v \<in> set db \<Longrightarrow> distinct (map application_id (applications v))"
  by (induction db) (auto simp: unique_ids_def)

lemma set_positional_status_unique:
  assumes "distinct (map application_id (applications v))" and "a \<in> set (applications v)"
  shows "set_positional_status (application_id a) s v =
           v\<lparr>applications := map (\<lambda>b. if application_id b = application_id a
                                        then b\<lparr>application_status := s\<rparr> else b)
                                  (applications v)\<rparr>"
proof -
  have "update_first (\<lambda>app. application_id app = application_id a)
          (\<lambda>app. app\<lparr>application_status := s\<rparr>) (applications v) =
        map (\<lambda>b. if application_id b = application_id a
                  then b\<lparr>application_status := s\<rparr> else b) (applications v)"
    by (rule update_first_unique) (rule filter_key_le1 [OF assms(1)])
  then show ?thesis by (simp add: set_positional_status_def)
qed

lemma first_update_unique:
  assumes "distinct (map application_id (applications v))" and "a \<in> set (applications v)"
  shows "teacherApply_first_update (application_id a) s v =
           v\<lparr>applications := map (\<lambda>b. if application_id b = application_id a
                                        then b\<lparr>application_status := s\<rparr> else b)
                                  (applications v),
             status := (if s = ''accepted'' then ''closed'' else status v)\<rparr>"
  by (simp add: teacherApply_first_update_def set_positional_status_unique [OF assms])

lemma reject_after_first_update:
  "reject_other_pending i
     (v\<lparr>applications := map (\<lambda>b. if application_id b = i
                                  then b\<lparr>application_status := ''accepted''\<rparr> else b)
                            (applications v),
        status := st\<rparr>) =
   v\<lparr>applications := map (status_result i ''accepted'') (applications v), status := st\<rparr>"
  by (simp add: reject_other_pending_def status_result_def comp_def)

lemma first_update_not_accepted:
  "s \<noteq> ''accepted'' \<Longrightarrow>
   v\<lparr>applications := map (\<lambda>b. if application_id b = i
                                  then b\<lparr>application_status := s\<rparr> else b)
                            (applications v),
      status := st\<rparr> =
   v\<lparr>applications := map (status_result i s) (applications v), status := st\<rparr>"
  by (simp add: status_result_def)

lemma same_vacancy:
  "distinct (map vacancy_id db) \<Longrightarrow> v \<in> set db \<Longrightarrow> w \<in> set db \<Longrightarrow>
     vacancy_id w = vacancy_id v \<Longrightarrow> w = v"
  by (meson distinct_map inj_onD)

lemma findOneAndUpdate_application:
  assumes u: "unique_ids db" and v: "v \<in> set db" and a: "a \<in> set (applications v)"
  shows "find (has_application (application_id a)) db = Some v"
    and "update_first (has_application (application_id a)) f db =
           map (\<lambda>w. if vacancy_id w = vacancy_id v then f v else w) db"
proof -
  let ?i = "application_id a"
  have dv: "distinct (map vacancy_id db)"
    and dc: "distinct (concat (map (\<lambda>v. map application_id (applications v)) db))"
    using u by (simp_all add: unique_ids_def)
  have hv: "has_application ?i v"
    using a by (auto simp: has_application_def list_ex_iff)
  have only: "\<forall>w\<in>set db. has_application ?i w \<longrightarrow> w = v"
    using has_application_only [OF dc v hv] by blast
  show "find (has_application ?i) db = Some v"
    using v hv only by (rule find_only)
  have "update_first (has_application ?i) f db =
          map (\<lambda>w. if vacancy_id w = vacancy_id v then f w else w) db"
    using dv v hv only by (rule update_first_only)
  also have "\<dots> = map (\<lambda>w. if vacancy_id w = vacancy_id v then f v else w) db"
    using same_vacancy [OF dv v] by (intro map_cong [OF refl]) auto
  finally show "update_first (has_application ?i) f db =
                  map (\<lambda>w. if vacancy_id w = vacancy_id v then f v else w) db" .
qed

lemma updateOne_by_id:
  assumes dv: "distinct (map vacancy_id db)" and v: "v \<in> set db"
    and g: "vacancy_id v1 = vacancy_id v"
  shows "update_first (\<lambda>w. vacancy_id w = vacancy_id v1) f
           (map (\<lambda>w. if vacancy_id w = vacancy_id v then v1 else w) db) =
         map (\<lambda>w. if vacancy_id w = vacancy_id v then f v1 else w) db"
proof -
  let ?db1 = "map (\<lambda>w. if vacancy_id w = vacancy_id v then v1 else w) db"
  have ids: "map vacancy_id ?db1 = map vacancy_id db"
    by (simp add: g)
  have d1: "distinct (map vacancy_id ?db1)"
    unfolding ids by (rule dv)
  have "update_first (\<lambda>w. vacancy_id w = vacancy_id v1) f ?db1 =
          map (\<lambda>w. if vacancy_id w = vacancy_id v1 then f w else w) ?db1"
    by (rule update_first_unique) (rule filter_key_le1 [OF d1])
  also have "\<dots> = map (\<lambda>w. if vacancy_id w = vacancy_id v then f v1 else w) db"
    by (simp add: g)
  finally show ?thesis .
qed

lemma teacherApply_application_status_state:
  assumes u: "unique_ids db" and v: "v \<in> set db" and a: "a \<in> set (applications v)"
  shows "teacherApply_application_status db (application_id a) s =
           (map (\<lambda>w. if vacancy_id w = vacancy_id v
                      then v\<lparr>applications := map (status_result (application_id a) s) (applications v),
                             status := (if s = ''accepted'' then ''closed'' else status v)\<rparr>
                      else w) db,
            Inr (map (\<lambda>b. if application_id b = application_id a
                           then b\<lparr>application_status := s\<rparr> else b) (applications v)))"
proof -
  let ?i = "application_id a"
  define v1 where "v1 = teacherApply_first_update ?i s v"
  define v2 where "v2 = (if s = ''accepted'' then reject_other_pending ?i v1 else v1)"
  have dv: "distinct (map vacancy_id db)"
    using u by (simp add: unique_ids_def)
  have da: "distinct (map application_id (applications v))"
    using u v by (rule unique_ids_applications)
  have fu: "v1 = v\<lparr>applications := map (\<lambda>b. if application_id b = ?i
                                        then b\<lparr>application_status := s\<rparr> else b)
                                  (applications v),
                  status := (if s = ''accepted'' then ''closed'' else status v)\<rparr>"
    unfolding v1_def using da a by (rule first_update_unique)
  have found: "find (has_application ?i) db = Some v"
    using u v a by (rule findOneAndUpdate_application(1))
  have db1: "update_first (has_application ?i) (teacherApply_first_update ?i s) db =
               map (\<lambda>w. if vacancy_id w = vacancy_id v then v1 else w) db"
    unfolding v1_def using u v a by (rule findOneAndUpdate_application(2))
  have id1: "vacancy_id v1 = vacancy_id v"
    by (simp add: fu)
  have db2: "update_first (\<lambda>w. vacancy_id w = vacancy_id v1) (reject_other_pending ?i)
                 (map (\<lambda>w. if vacancy_id w = vacancy_id v then v1 else w) db) =
               map (\<lambda>w. if vacancy_id w = vacancy_id v
                      then reject_other_pending ?i v1 else w) db"
    using dv v id1 by (rule updateOne_by_id)
  have run: "teacherApply_application_status db ?i s =
               (map (\<lambda>w. if vacancy_id w = vacancy_id v then v2 else w) db,
                Inr (applications v1))"
    unfolding teacherApply_application_status_def found option.case Let_def db1
      v1_def [symmetric] db2 v2_def
    by (simp cong: if_cong)
  have shown: "applications v1 =
                 map (\<lambda>b. if application_id b = ?i then b\<lparr>application_status := s\<rparr> else b)
                   (applications v)"
    by (simp add: fu)
  have final: "v2 = v\<lparr>applications := map (status_result ?i s) (applications v),
                     status := (if s = ''accepted'' then ''closed'' else status v)\<rparr>"
  proof (cases "s = ''accepted''")
    case False
    then have "v2 = v1" by (simp add: v2_def)
    also have "v1 = v\<lparr>applications := map (status_result ?i s) (applications v),
                     status := (if s = ''accepted'' then ''closed'' else status v)\<rparr>"
      unfolding fu by (rule first_update_not_accepted [OF False])
    finally show ?thesis .
  next
    case True
    then have "v2 = reject_other_pending ?i v1" by (simp add: v2_def)
    also have "\<dots> = v\<lparr>applications := map (status_result ?i s) (applications v),
                     status := (if s = ''accepted'' then ''closed'' else status v)\<rparr>"
      unfolding fu unfolding True by (rule reject_after_first_update)
    finally show ?thesis .
  qed
  show ?thesis
    unfolding run shown final by (rule refl)
qed

lemma findById_after_update:
  assumes "distinct (map vacancy_id db)" and "v \<in> set db" and "vacancy_id v' = vacancy_id v"
  shows "findById (map (\<lambda>w. if vacancy_id w = vacancy_id v then v' else w) db) (vacancy_id v) =
           Some v'"
proof -
  let ?g = "\<lambda>w. if vacancy_id w = vacancy_id v then v' else w"
  have "find (\<lambda>w. vacancy_id w = vacancy_id v) (map ?g db) =
          map_option ?g (find (\<lambda>w. vacancy_id w = vacancy_id v) db)"
    using find_map_preserve [of "\<lambda>w. vacancy_id w = vacancy_id v" ?g db]
    by (simp add: assms(3))
  also have "find (\<lambda>w. vacancy_id w = vacancy_id v) db = Some v"
    using findById_member [OF assms(1,2)] by (simp add: findById_def)
  finally show ?thesis by (simp add: findById_def)
qed

lemma find_application:
  fixes g :: "application \<Rightarrow> application"
  assumes "distinct (map application_id apps)" and "b \<in> set apps"
    and "\<And>x. application_id (g x) = application_id x"
  shows "find (\<lambda>x. application_id x = application_id b) (map g apps) = Some (g b)"
proof -
  have "find (\<lambda>x. application_id x = application_id b) (map g apps) =
          map_option g (find (\<lambda>x. application_id x = application_id b) apps)"
    using find_map_preserve [of "\<lambda>x. application_id x = application_id b" g apps]
    by (simp add: assms(3))
  also have "find (\<lambda>x. application_id x = application_id b) apps = Some b"
    using find_key [OF assms(1,2), of "\<lambda>_. True"] by simp
  finally show ?thesis by simp
qed

lemma application_id_status_result: "application_id (status_result i s b) = application_id b"
  by (simp add: status_result_def)

lemma teacherApply_application_status_application_in:
  assumes u: "unique_ids db" and v: "v \<in> set db" and a: "a \<in> set (applications v)"
    and b: "b \<in> set (applications v)"
  shows "application_in (fst (teacherApply_application_status db (application_id a) s))
           (vacancy_id v) (application_id b) = Some (status_result (application_id a) s b)"
proof -
  let ?v' = "v\<lparr>applications := map (status_result (application_id a) s) (applications v),
               status := (if s = ''accepted'' then ''closed'' else status v)\<rparr>"
  have dv: "distinct (map vacancy_id db)"
    using u by (simp add: unique_ids_def)
  have da: "distinct (map application_id (applications v))"
    using u v by (rule unique_ids_applications)
  have "findById (fst (teacherApply_application_status db (application_id a) s)) (vacancy_id v) =
          Some ?v'"
    unfolding teacherApply_application_status_state [OF u v a] fst_conv
    using dv v by (rule findById_after_update) simp
  moreover have "find (\<lambda>x. application_id x = application_id b) (applications ?v') =
                   Some (status_result (application_id a) s b)"
    using find_application [OF da b, of "status_result (application_id a) s"]
    by (simp add: application_id_status_result)
  ultimately show ?thesis by (simp add: application_in_def)
qed

lemma teacherApply_application_status_vacancy:
  assumes u: "unique_ids db" and v: "v \<in> set db" and a: "a \<in> set (applications v)"
  shows "findById (fst (teacherApply_application_status db (application_id a) s)) (vacancy_id v) =
           Some (v\<lparr>applications := map (status_result (application_id a) s) (applications v),
                   status := (if s = ''accepted'' then ''closed'' else status v)\<rparr>)"
proof -
  have dv: "distinct (map vacancy_id db)"
    using u by (simp add: unique_ids_def)
  show ?thesis
    unfolding teacherApply_application_status_state [OF u v a] fst_conv
    using dv v by (rule findById_after_update) simp
qed

lemma distinct_application_ids:
  assumes "unique_ids db" and "v \<in> set db" and "a \<in> set (applications v)"
    and "b \<in> set (applications v)" and "application_id b = application_id a"
  shows "b = a"
proof -
  have "distinct (map application_id (applications v))"
    using assms(1,2) by (rule unique_ids_applications)
  then have "inj_on application_id (set (applications v))"
    by (simp add: distinct_map)
  with assms(3-5) show ?thesis by (meson inj_onD)
qed

lemma vacancyRoutes_application_status_state:
  assumes u: "unique_ids db" and v: "v \<in> set db" and a: "a \<in> set (applications v)"
  shows "vacancyRoutes_application_status db (vacancy_id v) (application_id a) s =
           (map (\<lambda>w. if vacancy_id w = vacancy_id v
                      then v\<lparr>applications :=
                               map (\<lambda>b. if application_id b = application_id a
                                         then b\<lparr>application_status := s\<rparr> else b)
                                 (applications v)\<rparr>
                      else w) db,
            Inr ())"
proof -
  let ?i = "application_id a"
  let ?q = "\<lambda>w. vacancy_id w = vacancy_id v \<and> has_application ?i w"
  have dv: "distinct (map vacancy_id db)"
    using u by (simp add: unique_ids_def)
  have da: "distinct (map application_id (applications v))"
    using u v by (rule unique_ids_applications)
  have hv: "has_application ?i v"
    using a by (auto simp: has_application_def list_ex_iff)
  have found: "find ?q db = Some v"
    using find_key [OF dv v, of "has_application ?i"] hv by simp
  have only: "\<forall>w\<in>set db. ?q w \<longrightarrow> w = v"
    using same_vacancy [OF dv v] by blast
  have qv: "?q v" using hv by simp
  have "update_first ?q (set_positional_status ?i s) db =
          map (\<lambda>w. if vacancy_id w = vacancy_id v then set_positional_status ?i s w else w) db"
    using dv v qv only by (rule update_first_only)
  also have "\<dots> = map (\<lambda>w. if vacancy_id w = vacancy_id v then set_positional_status ?i s v else w) db"
    using same_vacancy [OF dv v] by (intro map_cong [OF refl]) auto
  finally have upd: "update_first ?q (set_positional_status ?i s) db =
      map (\<lambda>w. if vacancy_id w = vacancy_id v then set_positional_status ?i s v else w) db" .
  show ?thesis
    unfolding vacancyRoutes_application_status_def Let_def found option.case upd
      set_positional_status_unique [OF da a]
    by (rule refl)
qed

lemma vacancyRoutes_application_status_application_in:
  assumes u: "unique_ids db" and v: "v \<in> set db" and a: "a \<in> set (applications v)"
    and b: "b \<in> set (applications v)"
  shows "application_in (fst (vacancyRoutes_application_status db (vacancy_id v) (application_id a) s))
           (vacancy_id v) (application_id b) =
         Some (if application_id b = application_id a then b\<lparr>application_status := s\<rparr> else b)"
proof -
  let ?g = "\<lambda>b. if application_id b = application_id a then b\<lparr>application_status := s\<rparr> else b"
  let ?v' = "v\<lparr>applications := map ?g (applications v)\<rparr>"
  have dv: "distinct (map vacancy_id db)"
    using u by (simp add: unique_ids_def)
  have da: "distinct (map application_id (applications v))"
    using u v by (rule unique_ids_applications)
  have "findById (fst (vacancyRoutes_application_status db (vacancy_id v) (application_id a) s))
          (vacancy_id v) = Some ?v'"
    unfolding vacancyRoutes_application_status_state [OF u v a] fst_conv
    using dv v by (rule findById_after_update) simp
  moreover have "find (\<lambda>x. application_id x = application_id b) (applications ?v') = Some (?g b)"
    using find_application [OF da b, of ?g] by simp
  ultimately show ?thesis by (simp add: application_in_def)
qed

section \<open>Applying to a vacancy\<close>

subsection \<open>What the two handlers share and where they differ\<close>

lemma populate_no_duplicate:
  "t \<notin> teacher ` set apps \<Longrightarrow>
     \<not> list_ex (\<lambda>app. case populate teachers app of None \<Rightarrow> False | Some u \<Rightarrow> u = t) apps"
  by (auto simp: list_ex_iff populate_def split: option.splits if_splits)

text \<open>
  The teacher-side handler closes the vacancy with its fifth application and leaves it
  open below five.
\<close>

lemma teacherApply_apply_fifth_closes:
  fixes newId now t :: nat and v :: vacancy
  assumes "distinct (map vacancy_id db)" and "v \<in> set db" and "status v = ''open''"
    and "t \<notin> teacher ` set (applications v)"
    and "length (applications v) = 4"
  defines "new \<equiv> \<lparr>application_id = newId, teacher = t,
                   application_status = ''pending'', appliedAt = Some now\<rparr>"
  shows "teacherApply_apply_vacancy teachers newId now db (vacancy_id v) t =
           (map (\<lambda>w. if vacancy_id w = vacancy_id v
                      then v\<lparr>applications := applications v @ [new], status := ''closed''\<rparr>
                      else w) db,
            Inr (''closed'', applications v @ [new]))"
  using teacherApply_apply_success [OF assms(1-3) populate_no_duplicate [OF assms(4)]] assms(5)
  by (simp add: new_def)

lemma teacherApply_apply_below_five_stays_open:
  fixes newId now t :: nat and v :: vacancy
  assumes "distinct (map vacancy_id db)" and "v \<in> set db" and "status v = ''open''"
    and "t \<notin> teacher ` set (applications v)"
    and "length (applications v) < 4"
  defines "new \<equiv> \<lparr>application_id = newId, teacher = t,
                   application_status = ''pending'', appliedAt = Some now\<rparr>"
  shows "teacherApply_apply_vacancy teachers newId now db (vacancy_id v) t =
           (map (\<lambda>w. if vacancy_id w = vacancy_id v
                      then v\<lparr>applications := applications v @ [new], status := ''open''\<rparr>
                      else w) db,
            Inr (''open'', applications v @ [new]))"
  using teacherApply_apply_success [OF assms(1-3) populate_no_duplicate [OF assms(4)]] assms(5)
  by (simp add: new_def)

text \<open>
  The handler of vacancyRoutes.js never lets a vacancy grow beyond five applications, and
  neither status route changes the length of any application list.
\<close>

lemma vacancyRoutes_apply_keeps_capacity:
  assumes "\<forall>v\<in>set db. length (applications v) \<le> 5"
  shows "\<forall>v\<in>set (fst (vacancyRoutes_apply_vacancy newId db vacancyId t)).
           length (applications v) \<le> 5"
proof (cases "findOne_open db vacancyId")
  case None
  with assms show ?thesis by (simp add: vacancyRoutes_apply_vacancy_def)
next
  case (Some vacancy)
  show ?thesis
  proof (cases "list_ex (\<lambda>app. teacher app = t) (applications vacancy) \<or>
                5 \<le> length (applications vacancy)")
    case True
    with Some assms show ?thesis by (auto simp: vacancyRoutes_apply_vacancy_def)
  next
    case False
    let ?doc = "vacancy\<lparr>applications := applications vacancy @
                  [\<lparr>application_id = newId, teacher = t,
                    application_status = ''pending'', appliedAt = None\<rparr>]\<rparr>"
    from False have "length (applications ?doc) \<le> 5" by simp
    moreover have "set (save ?doc db) \<subseteq> insert ?doc (set db)" by (rule set_save)
    moreover from Some False
    have "fst (vacancyRoutes_apply_vacancy newId db vacancyId t) = save ?doc db"
      by (simp add: vacancyRoutes_apply_vacancy_def)
    ultimately show ?thesis using assms by auto
  qed
qed

text \<open>
  The handler of teacherApply.js keeps the bound only as long as every open vacancy holds
  fewer than five applications, which its own closing at five maintains.
\<close>

lemma teacherApply_apply_keeps_capacity_below_five:
  assumes inv: "\<forall>v\<in>set db. length (applications v) \<le> 5 \<and>
                  (status v = ''open'' \<longrightarrow> length (applications v) < 5)"
  shows "\<forall>v\<in>set (fst (teacherApply_apply_vacancy teachers newId now db vacancyId t)).
           length (applications v) \<le> 5 \<and>
           (status v = ''open'' \<longrightarrow> length (applications v) < 5)"
proof (cases "findOne_open db vacancyId")
  case None
  with inv show ?thesis by (simp add: teacherApply_apply_vacancy_def)
next
  case (Some ev)
  then have "ev \<in> set db" and "status ev = ''open''"
    using find_SomeD [of "\<lambda>v. vacancy_id v = vacancyId \<and> status v = ''open''" db ev]
    by (simp_all add: findOne_open_def)
  with inv have below: "length (applications ev) < 5" by blast
  show ?thesis
  proof (cases "list_ex (\<lambda>app. case populate teachers app of None \<Rightarrow> False | Some u \<Rightarrow> u = t)
                  (applications ev)")
    case True
    with Some inv show ?thesis by (simp add: teacherApply_apply_vacancy_def)
  next
    case False
    let ?pushed = "ev\<lparr>applications := applications ev @
                     [\<lparr>application_id = newId, teacher = t,
                       application_status = ''pending'', appliedAt = Some now\<rparr>]\<rparr>"
    let ?full = "if length (applications ?pushed) = 5
                 then ?pushed\<lparr>status := ''closed''\<rparr> else ?pushed"
    have run: "fst (teacherApply_apply_vacancy teachers newId now db vacancyId t) = save ?full db"
      using Some False
      by (simp add: teacherApply_apply_vacancy_def Let_def split: option.splits)
    have full: "length (applications ?full) \<le> 5 \<and>
                (status ?full = ''open'' \<longrightarrow> length (applications ?full) < 5)"
      using below by auto
    have "set (save ?full db) \<subseteq> insert ?full (set db)" by (rule set_save)
    with full inv show ?thesis unfolding run by blast
  qed
qed

lemma application_status_keeps_lengths:
  "map (\<lambda>v. length (applications v)) (fst (teacherApply_application_status db i s)) =
     map (\<lambda>v. length (applications v)) db"
  "map (\<lambda>v. length (applications v)) (fst (vacancyRoutes_application_status db j i s)) =
     map (\<lambda>v. length (applications v)) db"
proof -
  have fu: "\<And>w s'. length (applications (teacherApply_first_update i s' w)) =
                     length (applications w)"
    by (simp add: teacherApply_first_update_def set_positional_status_def Let_def
          length_update_first)
  have rj: "\<And>w. length (applications (reject_other_pending i w)) = length (applications w)"
    by (simp add: reject_other_pending_def)
  have sp: "\<And>w. length (applications (set_positional_status i s w)) = length (applications w)"
    by (simp add: set_positional_status_def length_update_first)
  show "map (\<lambda>v. length (applications v)) (fst (teacherApply_application_status db i s)) =
          map (\<lambda>v. length (applications v)) db"
    by (simp add: teacherApply_application_status_def Let_def map_update_first fu rj
          split: option.splits)
  show "map (\<lambda>v. length (applications v)) (fst (vacancyRoutes_application_status db j i s)) =
          map (\<lambda>v. length (applications v)) db"
    by (simp add: vacancyRoutes_application_status_def Let_def map_update_first sp
          split: option.splits)
qed

subsection \<open>The capacity of five\<close>

text \<open>
  C1. Claimed: every apply keeps a vacancy with at most 5 applications at at most 5. The
  handler of teacherApply.js has no capacity test. Five applications through the handler
  of vacancyRoutes.js, which never closes a vacancy, leave vacancy 1 open with five
  applications; the next application through teacherApply.js is accepted and is the sixth.
\<close>

theorem teacherApply_apply_sixth_application:
  "fold (\<lambda>(n, t) db. fst (vacancyRoutes_apply_vacancy n db 1 t))
     [(101, 11), (102, 12), (103, 13), (104, 14), (105, 15)] [mk_vacancy 1 ''open'' []] =
     [mk_vacancy 1 ''open'' five_pending]
   \<and> length five_pending = 5
   \<and> teacherApply_apply_vacancy [11, 12, 13, 14, 15, 16] 106 0
       [mk_vacancy 1 ''open'' five_pending] 1 16 =
     ([mk_vacancy 1 ''open''
         (five_pending @ [\<lparr>application_id = 106, teacher = 16,
                            application_status = ''pending'', appliedAt = Some 0\<rparr>])],
      Inr (''open'',
           five_pending @ [\<lparr>application_id = 106, teacher = 16,
                            application_status = ''pending'', appliedAt = Some 0\<rparr>]))
   \<and> length (five_pending @ [\<lparr>application_id = 106, teacher = 16,
                            application_status = ''pending'', appliedAt = Some 0\<rparr>]) = 6"
  by (simp add: ex_defs vacancyRoutes_apply_vacancy_def teacherApply_apply_vacancy_def
        findOne_open_def findById_def save_def populate_def Let_def)

text \<open>
  C2, as claimed, fails where the applicant already has one of the five applications: the
  duplicate test comes before the capacity test, and the reply is the duplicate one.
\<close>

theorem vacancyRoutes_apply_full_duplicate_counterexample:
  "status (mk_vacancy 1 ''open'' five_one_rejected) = ''open''
   \<and> 5 \<le> length (applications (mk_vacancy 1 ''open'' five_one_rejected))
   \<and> vacancyRoutes_apply_vacancy 106 [mk_vacancy 1 ''open'' five_one_rejected] 1 15 =
       ([mk_vacancy 1 ''open'' five_one_rejected], Inl DuplicateApplication)
   \<and> Inl DuplicateApplication \<noteq> (Inl CapacityExceeded :: reply_error + unit)"
  by (simp add: ex_defs vacancyRoutes_apply_vacancy_def findOne_open_def)

text \<open>
  C2, amended. In the handler that tests the capacity (vacancyRoutes.js), an application
  to an existing open vacancy that holds 5 or more applications, none of them of the
  applicant, is refused with the capacity reply and the collection is left as it was,
  whatever the statuses of the applications held.
\<close>

theorem vacancyRoutes_apply_capacity_exceeded:
  assumes "distinct (map vacancy_id db)" and "v \<in> set db" and "status v = ''open''"
    and "5 \<le> length (applications v)"
    and "t \<notin> teacher ` set (applications v)"
  shows "vacancyRoutes_apply_vacancy newId db (vacancy_id v) t = (db, Inl CapacityExceeded)"
  using assms
  by (auto simp: vacancyRoutes_apply_vacancy_def findOne_open_member list_ex_iff)

theorem vacancyRoutes_apply_capacity_exceeded_witness:
  "distinct (map vacancy_id [mk_vacancy 1 ''open'' five_one_rejected])
   \<and> mk_vacancy 1 ''open'' five_one_rejected \<in> set [mk_vacancy 1 ''open'' five_one_rejected]
   \<and> status (mk_vacancy 1 ''open'' five_one_rejected) = ''open''
   \<and> 5 \<le> length (applications (mk_vacancy 1 ''open'' five_one_rejected))
   \<and> 16 \<notin> teacher ` set (applications (mk_vacancy 1 ''open'' five_one_rejected))
   \<and> vacancyRoutes_apply_vacancy 106 [mk_vacancy 1 ''open'' five_one_rejected]
       (vacancy_id (mk_vacancy 1 ''open'' five_one_rejected)) 16 =
       ([mk_vacancy 1 ''open'' five_one_rejected], Inl CapacityExceeded)"
proof -
  let ?v = "mk_vacancy 1 ''open'' five_one_rejected"
  have h: "distinct (map vacancy_id [?v])" "?v \<in> set [?v]" "status ?v = ''open''"
    "5 \<le> length (applications ?v)" "16 \<notin> teacher ` set (applications ?v)"
    by (simp_all add: ex_defs)
  from h vacancyRoutes_apply_capacity_exceeded [OF h, of 106] show ?thesis by blast
qed

subsection \<open>The fifth application\<close>

text \<open>
  C3. Claimed: the apply that brings an open vacancy from 4 to 5 applications also closes
  it. The handler of teacherApply.js does (lemma \<open>teacherApply_apply_fifth_closes\<close>); the
  handler of vacancyRoutes.js stores the fifth application and leaves the vacancy open.
\<close>

theorem vacancyRoutes_apply_fifth_stays_open:
  "length pending_four = 4
   \<and> vacancyRoutes_apply_vacancy 105 [mk_vacancy 1 ''open'' pending_four] 1 15 =
       ([mk_vacancy 1 ''open'' five_pending], Inr ())
   \<and> length five_pending = 5"
  by (simp add: ex_defs vacancyRoutes_apply_vacancy_def findOne_open_def save_def)

subsection \<open>Duplicate applications\<close>

text \<open>
  C4, as claimed, fails in two places. A teacher whose (rejected) application sits in a
  closed vacancy gets the not-found-or-not-open reply, from both handlers, since the lookup
  requires status open. And the handler of teacherApply.js compares the populated teacher
  reference, which is null when the Teacher collection has no such document: the stored
  application is then skipped and a second one is appended.
\<close>

theorem apply_duplicate_counterexample:
  "teacher (mk_application 101 11 ''rejected'') = 11
   \<and> vacancyRoutes_apply_vacancy 102 [mk_vacancy 1 ''closed'' [mk_application 101 11 ''rejected'']] 1 11 =
       ([mk_vacancy 1 ''closed'' [mk_application 101 11 ''rejected'']], Inl NotFoundOrNotOpen)
   \<and> teacherApply_apply_vacancy [11] 102 0
         [mk_vacancy 1 ''closed'' [mk_application 101 11 ''rejected'']] 1 11 =
       ([mk_vacancy 1 ''closed'' [mk_application 101 11 ''rejected'']], Inl NotFoundOrNotOpen)
   \<and> fst (teacherApply_apply_vacancy [] 102 0
         [mk_vacancy 1 ''open'' [mk_application 101 11 ''rejected'']] 1 11) =
       [mk_vacancy 1 ''open''
          [mk_application 101 11 ''rejected'',
           \<lparr>application_id = 102, teacher = 11, application_status = ''pending'',
             appliedAt = Some 0\<rparr>]]"
  by (simp add: ex_defs vacancyRoutes_apply_vacancy_def teacherApply_apply_vacancy_def
        findOne_open_def findById_def save_def populate_def Let_def)

text \<open>
  C4, amended. On an existing open vacancy whose application list holds an application of
  the applying teacher, whatever its status, the application is refused with the duplicate
  reply and nothing is appended; in teacherApply.js this needs the teacher's own document
  to be in the Teacher collection.
\<close>

theorem apply_duplicate:
  assumes "distinct (map vacancy_id db)" and "v \<in> set db" and "status v = ''open''"
    and "a \<in> set (applications v)" and "teacher a = t"
  shows "vacancyRoutes_apply_vacancy newId db (vacancy_id v) t = (db, Inl DuplicateApplication)
       \<and> (t \<in> set teachers \<longrightarrow>
            teacherApply_apply_vacancy teachers newId now db (vacancy_id v) t =
              (db, Inl DuplicateApplication))"
proof (intro conjI impI)
  from assms
  show "vacancyRoutes_apply_vacancy newId db (vacancy_id v) t = (db, Inl DuplicateApplication)"
    by (auto simp: vacancyRoutes_apply_vacancy_def findOne_open_member list_ex_iff)
next
  assume "t \<in> set teachers"
  with assms have "populate teachers a = Some t"
    by (simp add: populate_def)
  with assms
  show "teacherApply_apply_vacancy teachers newId now db (vacancy_id v) t =
          (db, Inl DuplicateApplication)"
    by (auto simp: teacherApply_apply_vacancy_def findOne_open_member list_ex_iff)
qed

theorem apply_duplicate_witness:
  "distinct (map vacancy_id [mk_vacancy 1 ''open'' [mk_application 101 11 ''rejected'']])
   \<and> status (mk_vacancy 1 ''open'' [mk_application 101 11 ''rejected'']) = ''open''
   \<and> mk_application 101 11 ''rejected'' \<in>
       set (applications (mk_vacancy 1 ''open'' [mk_application 101 11 ''rejected'']))
   \<and> teacher (mk_application 101 11 ''rejected'') = 11
   \<and> 11 \<in> set [11 :: nat]
   \<and> vacancyRoutes_apply_vacancy 102 [mk_vacancy 1 ''open'' [mk_application 101 11 ''rejected'']]
       (vacancy_id (mk_vacancy 1 ''open'' [mk_application 101 11 ''rejected''])) 11 =
       ([mk_vacancy 1 ''open'' [mk_application 101 11 ''rejected'']], Inl DuplicateApplication)
   \<and> teacherApply_apply_vacancy [11] 102 0
       [mk_vacancy 1 ''open'' [mk_application 101 11 ''rejected'']]
       (vacancy_id (mk_vacancy 1 ''open'' [mk_application 101 11 ''rejected''])) 11 =
       ([mk_vacancy 1 ''open'' [mk_application 101 11 ''rejected'']], Inl DuplicateApplication)"
proof -
  let ?a = "mk_application 101 11 ''rejected''"
  let ?v = "mk_vacancy 1 ''open'' [?a]"
  have h: "distinct (map vacancy_id [?v])" "?v \<in> set [?v]" "status ?v = ''open''"
    "?a \<in> set (applications ?v)" "teacher ?a = 11"
    by (simp_all add: ex_defs)
  have t: "11 \<in> set [11 :: nat]" by simp
  from h t apply_duplicate [OF h, of 102 "[11]" 0] show ?thesis by blast
qed

subsection \<open>Vacancies that are not open\<close>

text \<open>
  C8, as claimed, fails: a closed vacancy and a vacancy id that does not exist get the
  very same reply, 404 with the message "Vacancy not found or not open".
\<close>

theorem apply_closed_same_as_missing_counterexample:
  "snd (teacherApply_apply_vacancy [16] 106 0 [mk_vacancy 1 ''closed'' five_pending] 1 16) =
   snd (teacherApply_apply_vacancy [16] 106 0 [mk_vacancy 1 ''closed'' five_pending] 2 16)
   \<and> snd (vacancyRoutes_apply_vacancy 106 [mk_vacancy 1 ''closed'' five_pending] 1 16) =
     snd (vacancyRoutes_apply_vacancy 106 [mk_vacancy 1 ''closed'' five_pending] 2 16)
   \<and> snd (vacancyRoutes_apply_vacancy 106 [mk_vacancy 1 ''closed'' five_pending] 1 16) =
     Inl NotFoundOrNotOpen
   \<and> http_code NotFoundOrNotOpen = 404
   \<and> message NotFoundOrNotOpen = ''Vacancy not found or not open''"
  by (simp add: ex_defs vacancyRoutes_apply_vacancy_def teacherApply_apply_vacancy_def
        findOne_open_def)

text \<open>
  C8, amended. An application to an existing vacancy whose status is not open is refused
  and appends nothing; the reply is the one an unknown vacancy id gets.
\<close>

theorem apply_not_open:
  assumes "distinct (map vacancy_id db)" and "v \<in> set db" and "status v \<noteq> ''open''"
    and "j \<notin> vacancy_id ` set db"
  shows "teacherApply_apply_vacancy teachers newId now db (vacancy_id v) t =
           (db, Inl NotFoundOrNotOpen)
       \<and> teacherApply_apply_vacancy teachers newId now db j t = (db, Inl NotFoundOrNotOpen)
       \<and> vacancyRoutes_apply_vacancy newId db (vacancy_id v) t = (db, Inl NotFoundOrNotOpen)
       \<and> vacancyRoutes_apply_vacancy newId db j t = (db, Inl NotFoundOrNotOpen)"
  using assms
  by (simp add: teacherApply_apply_vacancy_def vacancyRoutes_apply_vacancy_def
        findOne_open_member findOne_open_missing)

theorem apply_not_open_witness:
  "distinct (map vacancy_id [mk_vacancy 1 ''closed'' five_pending])
   \<and> status (mk_vacancy 1 ''closed'' five_pending) \<noteq> ''open''
   \<and> 2 \<notin> vacancy_id ` set [mk_vacancy 1 ''closed'' five_pending]
   \<and> teacherApply_apply_vacancy [16] 106 0 [mk_vacancy 1 ''closed'' five_pending]
       (vacancy_id (mk_vacancy 1 ''closed'' five_pending)) 16 =
       ([mk_vacancy 1 ''closed'' five_pending], Inl NotFoundOrNotOpen)
   \<and> teacherApply_apply_vacancy [16] 106 0 [mk_vacancy 1 ''closed'' five_pending] 2 16 =
       ([mk_vacancy 1 ''closed'' five_pending], Inl NotFoundOrNotOpen)
   \<and> vacancyRoutes_apply_vacancy 106 [mk_vacancy 1 ''closed'' five_pending]
       (vacancy_id (mk_vacancy 1 ''closed'' five_pending)) 16 =
       ([mk_vacancy 1 ''closed'' five_pending], Inl NotFoundOrNotOpen)
   \<and> vacancyRoutes_apply_vacancy 106 [mk_vacancy 1 ''closed'' five_pending] 2 16 =
       ([mk_vacancy 1 ''closed'' five_pending], Inl NotFoundOrNotOpen)"
proof -
  let ?v = "mk_vacancy 1 ''closed'' five_pending"
  have h: "distinct (map vacancy_id [?v])" "?v \<in> set [?v]" "status ?v \<noteq> ''open''"
    "2 \<notin> vacancy_id ` set [?v]"
    by (simp_all add: ex_defs)
  from h apply_not_open [OF h, of "[16]" 106 0 16] show ?thesis by blast
qed

section \<open>Changing the status of an application\<close>

subsection \<open>Acceptance and its cascade\<close>

text \<open>
  The route of teacherApply.js cascades. Setting a pending application to accepted through
  \<open>PUT /application-status/:applicationId\<close> leaves, once both updates are written, the
  target application accepted, every other application that was pending rejected, every
  application that was rejected as it was, and the vacancy closed. No application is added
  or removed.
\<close>

lemma teacherApply_accept_cascade:
  assumes "unique_ids db" and "v \<in> set db" and "a \<in> set (applications v)"
    and "application_status a = ''pending''"
  shows "(let db' = fst (teacherApply_application_status db (application_id a) ''accepted'') in
            application_in db' (vacancy_id v) (application_id a) =
              Some (a\<lparr>application_status := ''accepted''\<rparr>)
          \<and> (\<forall>b\<in>set (applications v). b \<noteq> a \<and> application_status b = ''pending'' \<longrightarrow>
                application_in db' (vacancy_id v) (application_id b) =
                  Some (b\<lparr>application_status := ''rejected''\<rparr>))
          \<and> (\<forall>b\<in>set (applications v). application_status b = ''rejected'' \<longrightarrow>
                application_in db' (vacancy_id v) (application_id b) = Some b)
          \<and> map_option status (findById db' (vacancy_id v)) = Some ''closed''
          \<and> map_option (\<lambda>v'. map application_id (applications v')) (findById db' (vacancy_id v)) =
              Some (map application_id (applications v)))"
proof -
  let ?db' = "fst (teacherApply_application_status db (application_id a) ''accepted'')"
  note at = teacherApply_application_status_application_in [OF assms(1-3), of _ "''accepted''"]
  have target: "application_in ?db' (vacancy_id v) (application_id a) =
                  Some (a\<lparr>application_status := ''accepted''\<rparr>)"
    using at [OF assms(3)] by (simp add: status_result_def)
  have others: "application_in ?db' (vacancy_id v) (application_id b) =
                  Some (b\<lparr>application_status := ''rejected''\<rparr>)"
    if "b \<in> set (applications v)" and "b \<noteq> a" and "application_status b = ''pending''" for b
  proof -
    from that(1,2) have "application_id b \<noteq> application_id a"
      using distinct_application_ids [OF assms(1-3)] by blast
    with that(3) show ?thesis using at [OF that(1)] by (simp add: status_result_def)
  qed
  have rejected: "application_in ?db' (vacancy_id v) (application_id b) = Some b"
    if "b \<in> set (applications v)" and "application_status b = ''rejected''" for b
  proof -
    from that(2) assms(4) have "b \<noteq> a" by auto
    with that(1) have "application_id b \<noteq> application_id a"
      using distinct_application_ids [OF assms(1-3)] by blast
    with that(2) show ?thesis using at [OF that(1)] by (simp add: status_result_def)
  qed
  note vac = teacherApply_application_status_vacancy [OF assms(1-3), of "''accepted''"]
  have closed: "map_option status (findById ?db' (vacancy_id v)) = Some ''closed''"
    by (simp add: vac)
  have ids: "map_option (\<lambda>v'. map application_id (applications v')) (findById ?db' (vacancy_id v)) =
               Some (map application_id (applications v))"
    by (simp add: vac comp_def application_id_status_result)
  show ?thesis
    unfolding Let_def using target others rejected closed ids by blast
qed

text \<open>Scenario: two pending applications and a rejected one; the first is accepted.\<close>

lemma teacherApply_accept_cascade_scenario:
  "unique_ids [mk_vacancy 1 ''open'' three_applications]
   \<and> mk_application 101 11 ''pending'' \<in> set (applications (mk_vacancy 1 ''open'' three_applications))
   \<and> application_status (mk_application 101 11 ''pending'') = ''pending''
   \<and> fst (teacherApply_application_status [mk_vacancy 1 ''open'' three_applications] 101 ''accepted'') =
       [mk_vacancy 1 ''closed''
          [mk_application 101 11 ''accepted'', mk_application 102 12 ''rejected'',
           mk_application 103 13 ''rejected'']]
   \<and> application_in
         (fst (teacherApply_application_status [mk_vacancy 1 ''open'' three_applications] 101 ''accepted''))
         1 102 = Some (mk_application 102 12 ''rejected'')
   \<and> application_in
         (fst (teacherApply_application_status [mk_vacancy 1 ''open'' three_applications] 101 ''accepted''))
         1 103 = Some (mk_application 103 13 ''rejected'')
   \<and> map_option status
         (findById (fst (teacherApply_application_status [mk_vacancy 1 ''open'' three_applications]
                           101 ''accepted'')) 1) = Some ''closed''"
proof -
  let ?a = "mk_application 101 11 ''pending''"
  let ?v = "mk_vacancy 1 ''open'' three_applications"
  have h: "unique_ids [?v]" "?v \<in> set [?v]" "?a \<in> set (applications ?v)"
    "application_status ?a = ''pending''"
    by (simp_all add: ex_defs unique_ids_def)
  have run: "fst (teacherApply_application_status [?v] 101 ''accepted'') =
       [mk_vacancy 1 ''closed''
          [mk_application 101 11 ''accepted'', mk_application 102 12 ''rejected'',
           mk_application 103 13 ''rejected'']]"
    by (simp add: ex_defs status_defs)
  have m: "mk_application 102 12 ''pending'' \<in> set (applications ?v)"
    "mk_application 103 13 ''rejected'' \<in> set (applications ?v)"
    by (simp_all add: ex_defs)
  from teacherApply_accept_cascade [OF h] h run m show ?thesis
    by (simp add: ex_defs Let_def)
qed

text \<open>
  C5. Claimed: setting a pending application to accepted leaves the target accepted, every
  other pending application rejected, the rejected ones as they were, and the vacancy
  closed. The route of teacherApply.js does (lemma \<open>teacherApply_accept_cascade\<close>). The
  route \<open>PUT /:vacancyId/applications/:applicationId/status\<close> of vacancyRoutes.js sets the
  one status and nothing else: on the same vacancy, application 102 stays pending and the
  vacancy stays open.
\<close>

theorem vacancyRoutes_accept_no_cascade:
  "application_status (mk_application 101 11 ''pending'') = ''pending''
   \<and> vacancyRoutes_application_status [mk_vacancy 1 ''open'' three_applications]
       1 101 ''accepted'' =
       ([mk_vacancy 1 ''open''
           [mk_application 101 11 ''accepted'', mk_application 102 12 ''pending'',
            mk_application 103 13 ''rejected'']],
        Inr ())"
  by (simp add: ex_defs status_defs)

subsection \<open>No check of the transition\<close>




subsection \<open>A second acceptance\<close>

text \<open>
  C7, as claimed, fails: after application 101 was accepted (and 102 rejected by the
  cascade), accepting 102 succeeds and the vacancy holds two accepted applications.
\<close>

theorem second_acceptance_counterexample:
  "fst (teacherApply_application_status
          [mk_vacancy 1 ''open'' [mk_application 101 11 ''pending'', mk_application 102 12 ''pending'']]
          101 ''accepted'') =
     [mk_vacancy 1 ''closed'' accepted_and_rejected]
   \<and> teacherApply_application_status [mk_vacancy 1 ''closed'' accepted_and_rejected] 102 ''accepted'' =
       ([mk_vacancy 1 ''closed''
           [mk_application 101 11 ''accepted'', mk_application 102 12 ''accepted'']],
        Inr [mk_application 101 11 ''accepted'', mk_application 102 12 ''accepted''])"
  by (simp add: ex_defs status_defs)

text \<open>
  C7, amended. When another application of the vacancy is already accepted, setting an
  application to accepted through \<open>PUT /application-status/:applicationId\<close> succeeds:
  the target becomes accepted and the application accepted before is left as it is.
\<close>

theorem teacherApply_second_acceptance:
  assumes "unique_ids db" and "v \<in> set db" and "a \<in> set (applications v)"
    and "b \<in> set (applications v)" and "b \<noteq> a" and "application_status b = ''accepted''"
  shows "\<not> isl (snd (teacherApply_application_status db (application_id a) ''accepted''))
       \<and> application_in (fst (teacherApply_application_status db (application_id a) ''accepted''))
           (vacancy_id v) (application_id a) = Some (a\<lparr>application_status := ''accepted''\<rparr>)
       \<and> application_in (fst (teacherApply_application_status db (application_id a) ''accepted''))
           (vacancy_id v) (application_id b) = Some b"
proof -
  note at = teacherApply_application_status_application_in [OF assms(1-3), of _ "''accepted''"]
  have ok: "\<not> isl (snd (teacherApply_application_status db (application_id a) ''accepted''))"
    by (simp add: teacherApply_application_status_state [OF assms(1-3)])
  have target: "application_in (fst (teacherApply_application_status db (application_id a) ''accepted''))
           (vacancy_id v) (application_id a) = Some (a\<lparr>application_status := ''accepted''\<rparr>)"
    using at [OF assms(3)] by (simp add: status_result_def)
  from assms(4,5) have "application_id b \<noteq> application_id a"
    using distinct_application_ids [OF assms(1-3)] by blast
  with assms(6) have kept: "application_in (fst (teacherApply_application_status db (application_id a) ''accepted''))
           (vacancy_id v) (application_id b) = Some b"
    using at [OF assms(4)] by (simp add: status_result_def)
  from ok target kept show ?thesis by blast
qed

text \<open>Application 101 is accepted; the rejected application 102 is then accepted too.\<close>

theorem teacherApply_second_acceptance_witness:
  "unique_ids [mk_vacancy 1 ''closed'' accepted_and_rejected]
   \<and> mk_application 102 12 ''rejected'' \<in> set (applications (mk_vacancy 1 ''closed'' accepted_and_rejected))
   \<and> mk_application 101 11 ''accepted'' \<in> set (applications (mk_vacancy 1 ''closed'' accepted_and_rejected))
   \<and> mk_application 101 11 ''accepted'' \<noteq> mk_application 102 12 ''rejected''
   \<and> application_status (mk_application 101 11 ''accepted'') = ''accepted''
   \<and> \<not> isl (snd (teacherApply_application_status [mk_vacancy 1 ''closed'' accepted_and_rejected]
                    102 ''accepted''))
   \<and> application_in
        (fst (teacherApply_application_status [mk_vacancy 1 ''closed'' accepted_and_rejected]
                102 ''accepted'')) 1 102 = Some (mk_application 102 12 ''accepted'')
   \<and> application_in
        (fst (teacherApply_application_status [mk_vacancy 1 ''closed'' accepted_and_rejected]
                102 ''accepted'')) 1 101 = Some (mk_application 101 11 ''accepted'')"
proof -
  let ?a = "mk_application 102 12 ''rejected''"
  let ?b = "mk_application 101 11 ''accepted''"
  let ?v = "mk_vacancy 1 ''closed'' accepted_and_rejected"
  have h: "unique_ids [?v]" "?v \<in> set [?v]" "?a \<in> set (applications ?v)"
    "?b \<in> set (applications ?v)" "?b \<noteq> ?a" "application_status ?b = ''accepted''"
    by (simp_all add: ex_defs unique_ids_def)
  from teacherApply_second_acceptance [OF h] h show ?thesis
    by (simp add: mk_application_def mk_vacancy_def)
qed

subsection \<open>The stored status\<close>

text \<open>
  C10. Both status routes store the target string of the request, whatever it is, as the
  status of the addressed existing application and answer with success.
\<close>

theorem application_status_stored_verbatim:
  assumes "unique_ids db" and "v \<in> set db" and "a \<in> set (applications v)"
  shows "\<not> isl (snd (teacherApply_application_status db (application_id a) s))
       \<and> application_in (fst (teacherApply_application_status db (application_id a) s))
           (vacancy_id v) (application_id a) = Some (a\<lparr>application_status := s\<rparr>)
       \<and> snd (vacancyRoutes_application_status db (vacancy_id v) (application_id a) s) = Inr ()
       \<and> application_in (fst (vacancyRoutes_application_status db (vacancy_id v) (application_id a) s))
           (vacancy_id v) (application_id a) = Some (a\<lparr>application_status := s\<rparr>)"
proof -
  have "\<not> isl (snd (teacherApply_application_status db (application_id a) s))"
    by (simp add: teacherApply_application_status_state [OF assms])
  moreover
  have "application_in (fst (teacherApply_application_status db (application_id a) s))
           (vacancy_id v) (application_id a) = Some (a\<lparr>application_status := s\<rparr>)"
    using teacherApply_application_status_application_in [OF assms assms(3), of s]
    by (simp add: status_result_def)
  moreover
  have "snd (vacancyRoutes_application_status db (vacancy_id v) (application_id a) s) = Inr ()"
    by (simp add: vacancyRoutes_application_status_state [OF assms])
  moreover
  have "application_in (fst (vacancyRoutes_application_status db (vacancy_id v) (application_id a) s))
           (vacancy_id v) (application_id a) = Some (a\<lparr>application_status := s\<rparr>)"
    using vacancyRoutes_application_status_application_in [OF assms assms(3), of s]
    by simp
  ultimately show ?thesis by blast
qed

text \<open>The target shortlisted, which is none of pending, accepted, rejected, is stored.\<close>

theorem application_status_stored_verbatim_witness:
  "unique_ids [mk_vacancy 1 ''open'' three_applications]
   \<and> mk_application 102 12 ''pending'' \<in> set (applications (mk_vacancy 1 ''open'' three_applications))
   \<and> \<not> isl (snd (teacherApply_application_status [mk_vacancy 1 ''open'' three_applications]
                    102 ''shortlisted''))
   \<and> application_in
        (fst (teacherApply_application_status [mk_vacancy 1 ''open'' three_applications]
                102 ''shortlisted'')) 1 102 = Some (mk_application 102 12 ''shortlisted'')
   \<and> snd (vacancyRoutes_application_status [mk_vacancy 1 ''open'' three_applications]
             1 102 ''shortlisted'') = Inr ()
   \<and> application_in
        (fst (vacancyRoutes_application_status [mk_vacancy 1 ''open'' three_applications]
                1 102 ''shortlisted'')) 1 102 = Some (mk_application 102 12 ''shortlisted'')"
proof -
  let ?a = "mk_application 102 12 ''pending''"
  let ?v = "mk_vacancy 1 ''open'' three_applications"
  have h: "unique_ids [?v]" "?v \<in> set [?v]" "?a \<in> set (applications ?v)"
    by (simp_all add: ex_defs unique_ids_def)
  from application_status_stored_verbatim [OF h, of "''shortlisted''"] h show ?thesis
    by (simp add: mk_application_def mk_vacancy_def)
qed

section \<open>Listing the available vacancies\<close>

text \<open>
  The listing of vacancyRoutes.js takes no teacher id; the teacher-side listing is that
  listing without the vacancies the teacher has applied to.
\<close>

lemma available_vacancies_of_both_routes:
  "map fst (teacherApply_available_vacancies db t) =
     filter (\<lambda>v. \<not> list_ex (\<lambda>app. teacher app = t) (applications v))
       (vacancyRoutes_available_vacancies db)"
proof -
  have "teacherApply_available_query t =
          (\<lambda>v. (status v = ''open'' \<and> length (applications v) < 5) \<and>
                \<not> list_ex (\<lambda>app. teacher app = t) (applications v))"
    by (auto simp: teacherApply_available_query_def fun_eq_iff)
  then show ?thesis
    by (simp add: teacherApply_available_vacancies_def vacancyRoutes_available_vacancies_def
          comp_def conj_commute)
qed

text \<open>
  C9. For every teacher id and every collection, the teacher-facing listing returns
  exactly the vacancies that are open, hold fewer than 5 applications and hold no
  application of that teacher; the count it attaches is the number of applications.
\<close>

theorem teacherApply_available_vacancies_exact:
  "map fst (teacherApply_available_vacancies db t) =
     filter (\<lambda>v. status v = ''open'' \<and> length (applications v) < 5 \<and>
                 t \<notin> teacher ` set (applications v)) db
   \<and> list_all (\<lambda>(v, n). n = length (applications v)) (teacherApply_available_vacancies db t)"
proof -
  have q: "teacherApply_available_query t =
             (\<lambda>v. status v = ''open'' \<and> length (applications v) < 5 \<and>
                   t \<notin> teacher ` set (applications v))"
    by (auto simp: teacherApply_available_query_def list_ex_iff fun_eq_iff)
  show ?thesis
    by (simp add: teacherApply_available_vacancies_def q comp_def list_all_iff)
qed

text \<open>
  A full open vacancy, an open vacancy teacher 13 has applied to, a closed one, and two
  open vacancies without teacher 13: the last two are listed.
\<close>

theorem teacherApply_available_vacancies_exact_witness:
  "map fst (teacherApply_available_vacancies
      [mk_vacancy 1 ''open'' five_pending, mk_vacancy 2 ''open'' pending_four,
       mk_vacancy 3 ''closed'' [], mk_vacancy 4 ''open'' [mk_application 201 21 ''pending''],
       mk_vacancy 5 ''open'' []] 13) =
     [mk_vacancy 4 ''open'' [mk_application 201 21 ''pending''], mk_vacancy 5 ''open'' []]"
  using teacherApply_available_vacancies_exact
    [of "[mk_vacancy 1 ''open'' five_pending, mk_vacancy 2 ''open'' pending_four,
          mk_vacancy 3 ''closed'' [], mk_vacancy 4 ''open'' [mk_application 201 21 ''pending''],
          mk_vacancy 5 ''open'' []]" 13]
  by (simp add: ex_defs)

end
